theory Spec2Isabelle
  imports Complex_Main "HOL-Library.Sublist"
begin

section \<open>Python primitives used by the ingestion pipeline\<close>

text \<open>
  Exceptions of the pipeline are values. Each constructor carries the message that
  \<open>str(e)\<close> yields. \<open>OSError\<close> is what a file system call raises;
  \<open>RemoteError\<close> stands for any \<open>Exception\<close> raised by a collaborator (PDF loader,
  text splitter, Azure OpenAI, Qdrant).
\<close>

datatype py_error =
    FileNotFoundError string
  | ValueError string
  | ZeroDivisionError string
  | OSError string
  | RemoteError string

fun str :: "py_error \<Rightarrow> string" where
  "str (FileNotFoundError m) = m"
| "str (ValueError m) = m"
| "str (ZeroDivisionError m) = m"
| "str (OSError m) = m"
| "str (RemoteError m) = m"

text \<open>
  \<open>range(start, stop, step)\<close>: a zero step raises \<open>ValueError\<close>; otherwise the
  sequence has \<open>max 0 (ceil ((stop - start) / step))\<close> elements.
\<close>

definition py_range :: "int \<Rightarrow> int \<Rightarrow> int \<Rightarrow> py_error + int list" where
  "py_range start stop step =
     (if step = 0 then Inl (ValueError ''range() arg 3 must not be zero'')
      else if 0 < step
        then Inr (map (\<lambda>k. start + int k * step) [0..<nat ((stop - start + step - 1) div step)])
        else Inr (map (\<lambda>k. start + int k * step) [0..<nat ((start - stop - step - 1) div (- step))]))"

text \<open>
  \<open>xs[lo:hi]\<close> on a list: a negative bound counts from the end, and both bounds are
  clamped to \<open>0 .. len(xs)\<close>; the slice never raises.
\<close>

definition clamp_index :: "nat \<Rightarrow> int \<Rightarrow> nat" where
  "clamp_index n i = (if i < 0 then nat (max (i + int n) 0) else min (nat i) n)"

definition py_slice :: "'a list \<Rightarrow> int \<Rightarrow> int \<Rightarrow> 'a list" where
  "py_slice xs lo hi =
     (let l = clamp_index (length xs) lo; h = clamp_index (length xs) hi
      in take (h - l) (drop l xs))"

text \<open>\<open>sep.join(xs)\<close> on strings.\<close>

fun join :: "string \<Rightarrow> string list \<Rightarrow> string" where
  "join sep [] = []"
| "join sep [x] = x"
| "join sep (x # y # ys) = x @ sep @ join sep (y # ys)"

text \<open>\<open>needle in haystack\<close> on strings: the needle occurs as a contiguous run.\<close>

fun py_in :: "'a list \<Rightarrow> 'a list \<Rightarrow> bool" where
  "py_in needle [] = (needle = [])"
| "py_in needle (c # cs) = (prefix needle (c # cs) \<or> py_in needle cs)"

text \<open>
  \<open>s.lower()\<close>, on the ASCII letters (a \<open>string\<close> is a list of bytes; the letters
  \<open>A\<close> to \<open>Z\<close> are the codes 65 to 90 and move up by 32).
\<close>

definition lower_char :: "char \<Rightarrow> char" where
  "lower_char c =
     (let k = of_char c :: nat in if 65 \<le> k \<and> k \<le> 90 then char_of (k + 32) else c)"

definition lower :: "string \<Rightarrow> string" where
  "lower s = map lower_char s"

text \<open>
  \<open>int(s)\<close> on a string, base 10: white space around the literal is dropped, one sign
  may lead, and the digits may be grouped by single underscores between digits; anything
  else raises \<open>ValueError\<close>. Only the ASCII digits and the ASCII white space are
  covered. The message quotes the string as \<open>repr\<close> does for a string without quotes
  or control characters.
\<close>

definition is_space :: "char \<Rightarrow> bool" where
  "is_space c =
     (let k = of_char c :: nat in k = 32 \<or> (9 \<le> k \<and> k \<le> 13) \<or> (28 \<le> k \<and> k \<le> 31))"

definition strip :: "string \<Rightarrow> string" where
  "strip s = rev (dropWhile is_space (rev (dropWhile is_space s)))"

definition digit_value :: "char \<Rightarrow> nat option" where
  "digit_value c =
     (let k = of_char c :: nat in if 48 \<le> k \<and> k \<le> 57 then Some (k - 48) else None)"

fun parse_digits :: "nat \<Rightarrow> bool \<Rightarrow> string \<Rightarrow> nat option" where
  "parse_digits acc after_digit [] = (if after_digit then Some acc else None)"
| "parse_digits acc after_digit (c # cs) =
     (if c = CHR ''_''
      then (if after_digit \<and> cs \<noteq> [] then parse_digits acc False cs else None)
      else (case digit_value c of
              None \<Rightarrow> None
            | Some d \<Rightarrow> parse_digits (10 * acc + d) True cs))"

definition repr :: "string \<Rightarrow> string" where
  "repr s = [CHR 0x27] @ s @ [CHR 0x27]"

definition py_int :: "string \<Rightarrow> py_error + int" where
  "py_int s =
     (let t = strip s;
          negative = (t \<noteq> [] \<and> hd t = CHR ''-'');
          body = (if t \<noteq> [] \<and> (hd t = CHR ''-'' \<or> hd t = CHR ''+'') then tl t else t)
      in case parse_digits 0 False body of
           None \<Rightarrow> Inl (ValueError (''invalid literal for int() with base 10: '' @ repr s))
         | Some n \<Rightarrow> Inr (if negative then - int n else int n))"

text \<open>\<open>str(n)\<close> on an integer: its decimal digits, with a minus sign when negative.\<close>

fun digits :: "nat \<Rightarrow> string" where
  "digits n =
     (if n < 10 then [char_of (48 + n)] else digits (n div 10) @ [char_of (48 + n mod 10)])"

definition py_str :: "int \<Rightarrow> string" where
  "py_str i = (if i < 0 then CHR ''-'' # digits (nat (- i)) else digits (nat i))"

section \<open>Configuration (\<open>src/core/config.py\<close>)\<close>

record config =
  collection_name :: string
  chunk_size :: int
  chunk_overlap :: int
  batch_size :: int
  mmr_k :: int
  embedding_batch_size :: int
  pdf_path :: string
  max_processes :: int
  opik_workspace :: string
  opik_project :: string

section \<open>Observable effects\<close>

text \<open>
  Every call that leaves the process, every pause and every reclamation hint is logged
  as an event, in program order. \<open>Sleep\<close> carries the argument of \<open>time.sleep\<close> in
  seconds, as an exact rational (\<open>0.1\<close> is \<open>1/10\<close>, \<open>0.5\<close> is \<open>1/2\<close>).
  Console output is not modelled.
\<close>

datatype 'd event =
    LoadPdf string
  | CreateEmbeddings
  | CreateQdrantClient
  | EmbedQuery string
  | CreateCollection string int
  | CreateVectorStore string
  | AddDocuments "'d list"
  | GcCollect
  | Sleep rat

section \<open>Batch uploader (\<open>upload_in_batches\<close>)\<close>

text \<open>
  The vector store is a state \<open>'r\<close> with an insert operation
  \<open>add :: 'r \<Rightarrow> 'd list \<Rightarrow> py_error option \<times> 'r\<close>: \<open>None\<close> when
  \<open>vectorstore.add_documents(batch)\<close> returns, \<open>Some e\<close> when it raises the
  \<open>Exception\<close> \<open>e\<close>; the second component is the store afterwards. Any pattern of
  successes and failures, also one that depends on the batches seen so far, is such an
  operation. Signals that are not \<open>Exception\<close>s (\<open>KeyboardInterrupt\<close>,
  \<open>SystemExit\<close>) are not insert failures and are outside the model.
\<close>

record ('d, 'r) upload_state =
  successful :: int
  failed :: int
  events :: "'d event list"
  store :: 'r

definition inter_batch_pause :: rat where
  "inter_batch_pause = 1 / 10"

definition retry_backoff :: rat where
  "retry_backoff = 1 / 2"

text \<open>One iteration of the \<open>for\<close> loop: the \<open>try\<close>, its handler and the retry.\<close>

definition upload_batch ::
  "('r \<Rightarrow> 'd list \<Rightarrow> py_error option \<times> 'r) \<Rightarrow> ('d, 'r) upload_state \<Rightarrow> 'd list
     \<Rightarrow> ('d, 'r) upload_state" where
  "upload_batch add st batch =
     (case add (store st) batch of
        (None, r1) \<Rightarrow>
          st\<lparr>successful := successful st + int (length batch),
             events := events st @ [AddDocuments batch, GcCollect, Sleep inter_batch_pause],
             store := r1\<rparr>
      | (Some e, r1) \<Rightarrow>
          (case add r1 batch of
             (None, r2) \<Rightarrow>
               st\<lparr>successful := successful st + int (length batch),
                  failed := failed st + int (length batch) - int (length batch),
                  events := events st @ [AddDocuments batch, Sleep retry_backoff, AddDocuments batch],
                  store := r2\<rparr>
           | (Some e2, r2) \<Rightarrow>
               st\<lparr>failed := failed st + int (length batch),
                  events := events st @ [AddDocuments batch, Sleep retry_backoff, AddDocuments batch],
                  store := r2\<rparr>))"

text \<open>The loop over the batches, in order.\<close>

fun upload_loop ::
  "('r \<Rightarrow> 'd list \<Rightarrow> py_error option \<times> 'r) \<Rightarrow> ('d, 'r) upload_state \<Rightarrow> 'd list list
     \<Rightarrow> ('d, 'r) upload_state" where
  "upload_loop add st [] = st"
| "upload_loop add st (batch # rest) = upload_loop add (upload_batch add st batch) rest"

text \<open>
  The loop header: \<open>for i in range(0, total_docs, batch_size)\<close> with
  \<open>batch = documents[i:i + batch_size]\<close> (the parameter \<open>batch_size\<close> is written
  \<open>bsize\<close>, the name being taken by the configuration field).
\<close>

definition batches :: "'d list \<Rightarrow> int \<Rightarrow> py_error + 'd list list" where
  "batches documents bsize =
     (case py_range 0 (int (length documents)) bsize of
        Inl e \<Rightarrow> Inl e
      | Inr idxs \<Rightarrow> Inr (map (\<lambda>i. py_slice documents i (i + bsize)) idxs))"

text \<open>The number of iterations of the loop for a positive \<open>batch_size\<close>.\<close>

definition batch_count :: "nat \<Rightarrow> int \<Rightarrow> nat" where
  "batch_count n b = nat ((int n + b - 1) div b)"

text \<open>
  \<open>upload_in_batches\<close> returns the boolean \<open>failed == 0\<close>; the model returns the final
  counters, log and store with it.
\<close>

definition upload_in_batches ::
  "('r \<Rightarrow> 'd list \<Rightarrow> py_error option \<times> 'r) \<Rightarrow> 'r \<Rightarrow> 'd list \<Rightarrow> int
     \<Rightarrow> py_error + (bool \<times> ('d, 'r) upload_state)" where
  "upload_in_batches add vectorstore documents bsize =
     (case batches documents bsize of
        Inl e \<Rightarrow> Inl e
      | Inr bs \<Rightarrow>
          (let st = upload_loop add
                      \<lparr>successful = 0, failed = 0, events = [], store = vectorstore\<rparr> bs
           in Inr (failed st = 0, st)))"

text \<open>
  A scripted store, for concrete runs: the state is the list of outcomes of the calls
  still to come (\<open>True\<close>: the insert returns); once the script is used up every insert
  returns.
\<close>

fun scripted :: "bool list \<Rightarrow> 'd list \<Rightarrow> py_error option \<times> bool list" where
  "scripted [] batch = (None, [])"
| "scripted (ok # rest) batch =
     (if ok then (None, rest) else (Some (RemoteError ''insert failed''), rest))"

text \<open>
  The verdict on one batch, in the words of the retry law: the batch is submitted; when
  that fails it is submitted once more; it has succeeded when either submission did.
  \<open>attempt\<close> gives the verdict and the store afterwards, \<open>verdicts\<close> the verdicts of a
  sequence of batches submitted in order.
\<close>

definition attempt ::
  "('r \<Rightarrow> 'd list \<Rightarrow> py_error option \<times> 'r) \<Rightarrow> 'r \<Rightarrow> 'd list \<Rightarrow> bool \<times> 'r" where
  "attempt add r batch =
     (case add r batch of
        (None, r1) \<Rightarrow> (True, r1)
      | (Some e, r1) \<Rightarrow>
          (case add r1 batch of (None, r2) \<Rightarrow> (True, r2) | (Some e2, r2) \<Rightarrow> (False, r2)))"

fun verdicts ::
  "('r \<Rightarrow> 'd list \<Rightarrow> py_error option \<times> 'r) \<Rightarrow> 'r \<Rightarrow> 'd list list \<Rightarrow> bool list" where
  "verdicts add r [] = []"
| "verdicts add r (batch # rest) =
     fst (attempt add r batch) # verdicts add (snd (attempt add r batch)) rest"

text \<open>The chunks of the batches that carry a given verdict.\<close>

definition chunks_with :: "bool \<Rightarrow> 'd list list \<Rightarrow> bool list \<Rightarrow> 'd list" where
  "chunks_with v bs vs = concat (map fst (filter (\<lambda>p. snd p = v) (zip bs vs)))"

text \<open>
  A log keeps a pause before every insert when each \<open>AddDocuments\<close> but the first has
  a \<open>Sleep\<close> between it and the \<open>AddDocuments\<close> before it. The flag says whether a
  pause has been seen since the last insert.
\<close>

fun pause_before_each_insert :: "bool \<Rightarrow> 'd event list \<Rightarrow> bool" where
  "pause_before_each_insert slept [] = True"
| "pause_before_each_insert slept (AddDocuments b # es) =
     (slept \<and> pause_before_each_insert False es)"
| "pause_before_each_insert slept (Sleep t # es) = pause_before_each_insert True es"
| "pause_before_each_insert slept (e # es) = pause_before_each_insert slept es"


section \<open>The collaborators\<close>

text \<open>
  What the pipeline does not compute itself is a parameter: the process environment (as
  it is once \<open>load_dotenv()\<close> has run), the configuration that \<open>get_config\<close> has
  cached, if any, the file system, the PDF loader (\<open>PyPDFium2Loader(path).load()\<close>), the
  text splitter (\<open>RecursiveCharacterTextSplitter(chunk_size, chunk_overlap)\<close> with its
  \<open>split_documents\<close>), the Azure OpenAI embeddings client and the Qdrant service. A
  constructor or call that may raise yields \<open>Some e\<close> or \<open>Inl e\<close> when it does;
  \<open>Path(p).exists()\<close> answers or raises \<open>OSError\<close> (a name that is too long). The
  Qdrant service has a state \<open>'r\<close>, which \<open>create_collection\<close> and \<open>add_documents\<close>
  read and change. The loader is a function of the path: the file does not change while
  it is being ingested.
\<close>

text \<open>
  The answer of the service to \<open>create_collection\<close>, as its interface has it: the
  collection was created, it exists already, or the creation failed for another reason,
  with the exception the client raises for it.
\<close>

datatype create_result = Ok | AlreadyExists | Error py_error

record ('d, 'r) world =
  getenv :: "string \<Rightarrow> string option"
  config_cache :: "config option"
  path_exists :: "string \<Rightarrow> py_error + bool"
  pdf_loader :: "string \<Rightarrow> py_error + 'd list"
  text_splitter :: "int \<Rightarrow> int \<Rightarrow> 'd list \<Rightarrow> py_error + 'd list"
  azure_embeddings :: "py_error option"
  qdrant_client :: "py_error option"
  embed_query :: "string \<Rightarrow> py_error + int"
  create_collection :: "'r \<Rightarrow> string \<Rightarrow> int \<Rightarrow> create_result \<times> 'r"
  qdrant_vector_store :: "'r \<Rightarrow> string \<Rightarrow> py_error option"
  add_documents :: "'r \<Rightarrow> 'd list \<Rightarrow> py_error option \<times> 'r"

section \<open>Building the configuration (\<open>Config\<close>, \<open>get_config\<close>)\<close>

text \<open>\<open>os.getenv(var, default)\<close>: the default stands in only for an unset variable.\<close>

definition getenv_default :: "(string \<Rightarrow> string option) \<Rightarrow> string \<Rightarrow> string \<Rightarrow> string" where
  "getenv_default env var fallback = (case env var of None \<Rightarrow> fallback | Some v \<Rightarrow> v)"

text \<open>
  \<open>Config()\<close>: the fields are filled in the order of their declaration, so the first
  tunable that is not an integer literal raises the \<open>ValueError\<close> of \<open>int\<close>.
\<close>

definition new_config :: "(string \<Rightarrow> string option) \<Rightarrow> py_error + config" where
  "new_config env =
     (case py_int (getenv_default env ''CHUNK_SIZE'' ''2048'') of Inl e \<Rightarrow> Inl e | Inr csize \<Rightarrow>
      case py_int (getenv_default env ''CHUNK_OVERLAP'' ''0'') of Inl e \<Rightarrow> Inl e | Inr overlap \<Rightarrow>
      case py_int (getenv_default env ''BATCH_SIZE'' ''2'') of Inl e \<Rightarrow> Inl e | Inr bsize \<Rightarrow>
      case py_int (getenv_default env ''MMR_K'' ''3'') of Inl e \<Rightarrow> Inl e | Inr k \<Rightarrow>
      case py_int (getenv_default env ''EMBEDDING_BATCH_SIZE'' ''1000'') of Inl e \<Rightarrow> Inl e
      | Inr ebsize \<Rightarrow>
      case py_int (getenv_default env ''MAX_PROCESSES'' ''8'') of Inl e \<Rightarrow> Inl e | Inr procs \<Rightarrow>
        Inr \<lparr>collection_name = getenv_default env ''COLLECTION_NAME'' ''atyantik-chatbot-openai'',
             chunk_size = csize,
             chunk_overlap = overlap,
             batch_size = bsize,
             mmr_k = k,
             embedding_batch_size = ebsize,
             pdf_path = getenv_default env ''PDF_PATH'' ''./Career Leveling Guide.pdf'',
             max_processes = procs,
             opik_workspace = getenv_default env ''OPIK_WORKSPACE'' ''knightkill'',
             opik_project = getenv_default env ''OPIK_PROJECT'' ''atyantik-chatbot''\<rparr>)"

text \<open>\<open>setup_environment\<close>, run by \<open>__post_init__\<close>: five variables are written.\<close>

definition setup_environment ::
  "config \<Rightarrow> (string \<Rightarrow> string option) \<Rightarrow> (string \<Rightarrow> string option)" where
  "setup_environment cfg env =
     env(''OPIK_WORKSPACE'' \<mapsto> opik_workspace cfg,
         ''OPIK_PROJECT_NAME'' \<mapsto> opik_project cfg,
         ''OMP_NUM_THREADS'' \<mapsto> py_str (max_processes cfg),
         ''MKL_NUM_THREADS'' \<mapsto> py_str (max_processes cfg),
         ''NUMEXPR_NUM_THREADS'' \<mapsto> py_str (max_processes cfg))"

text \<open>
  \<open>get_config()\<close> returns the cached configuration when there is one and builds one
  otherwise. \<open>resolve_config\<close> is the statement \<open>config = config or get_config()\<close>
  that opens \<open>load_pdf\<close>, \<open>split_documents\<close>, \<open>ingest_documents\<close> and the client
  constructors; \<open>environment_after\<close> is the process environment once that statement
  has run (changed only when a configuration was built).
\<close>

definition get_config :: "('d, 'r) world \<Rightarrow> py_error + config" where
  "get_config w = (case config_cache w of Some c \<Rightarrow> Inr c | None \<Rightarrow> new_config (getenv w))"

definition resolve_config :: "('d, 'r) world \<Rightarrow> config option \<Rightarrow> py_error + config" where
  "resolve_config w cfg = (case cfg of Some c \<Rightarrow> Inr c | None \<Rightarrow> get_config w)"

definition environment_after ::
  "('d, 'r) world \<Rightarrow> config option \<Rightarrow> (string \<Rightarrow> string option)" where
  "environment_after w cfg =
     (case cfg of
        Some c \<Rightarrow> getenv w
      | None \<Rightarrow>
          (case config_cache w of
             Some c \<Rightarrow> getenv w
           | None \<Rightarrow>
               (case new_config (getenv w) of
                  Inl e \<Rightarrow> getenv w
                | Inr c \<Rightarrow> setup_environment c (getenv w))))"

section \<open>Environment validation (\<open>Config.validate_environment\<close>)\<close>

definition required :: "string list" where
  "required =
     [''AZURE_OPENAI_API_KEY'',
      ''AZURE_OPENAI_ENDPOINT'',
      ''AZURE_OPENAI_API_VERSION'',
      ''AZURE_OPENAI_DEPLOYMENT_NAME'',
      ''AZURE_OPENAI_EMBEDDINGS_API_KEY'',
      ''AZURE_OPENAI_EMBEDDINGS_ENDPOINT'',
      ''AZURE_OPENAI_EMBEDDINGS_API_VERSION'',
      ''AZURE_OPENAI_EMBEDDINGS_DEPLOYMENT_NAME'',
      ''QDRANT_URL'',
      ''QDRANT_API_KEY'']"

text \<open>\<open>not os.getenv(var)\<close> holds when the variable is unset and when it is empty.\<close>

definition validate_environment :: "('d, 'r) world \<Rightarrow> string list" where
  "validate_environment w =
     filter (\<lambda>var. case getenv w var of None \<Rightarrow> True | Some v \<Rightarrow> v = []) required"

section \<open>Document loader (\<open>load_pdf_pages\<close>, \<open>load_pdf\<close>)\<close>

definition load_pdf_pages ::
  "('d, 'r) world \<Rightarrow> string \<Rightarrow> int option \<Rightarrow> int option \<Rightarrow> py_error + 'd list" where
  "load_pdf_pages w path start_page end_page =
     (case pdf_loader w path of
        Inl e \<Rightarrow> Inl e
      | Inr documents \<Rightarrow>
          (case (start_page, end_page) of
             (Some s, Some e) \<Rightarrow> Inr (py_slice documents s e)
           | _ \<Rightarrow> Inr documents))"

text \<open>
  The list comprehension over \<open>range(config.max_processes)\<close>; \<open>//\<close> rounds down, as
  \<open>div\<close> on \<open>int\<close> does.
\<close>

definition page_ranges :: "int \<Rightarrow> int \<Rightarrow> (int \<times> int) list" where
  "page_ranges total_pages processes =
     (let pages_per_process = total_pages div processes
      in map (\<lambda>i. (i * pages_per_process,
                   if i < processes - 1 then (i + 1) * pages_per_process else total_pages))
           [0..processes - 1])"

text \<open>
  \<open>pool.starmap(f, ranges)\<close>: the results in the order of the ranges, whatever the
  order of completion; an exception of a worker is raised in the caller.
\<close>

fun starmap ::
  "(int option \<Rightarrow> int option \<Rightarrow> py_error + 'a) \<Rightarrow> (int \<times> int) list \<Rightarrow> py_error + 'a list" where
  "starmap f [] = Inr []"
| "starmap f ((s, e) # rest) =
     (case f (Some s) (Some e) of
        Inl err \<Rightarrow> Inl err
      | Inr x \<Rightarrow> (case starmap f rest of Inl err \<Rightarrow> Inl err | Inr xs \<Rightarrow> Inr (x # xs)))"

text \<open>
  \<open>load_pdf\<close> returns the log of the loader calls with its result: one call in the
  parent, then one in each worker. Its statements, in order: the configuration is
  resolved, the existence of the path is checked, the file is loaded once, and above
  \<open>max_processes\<close> pages the ranges are formed and loaded by the pool. The decorator
  \<open>handle_errors\<close> prints and raises again, so it changes no result. With
  \<open>max_processes = 0\<close> and at least one page the division raises; with a negative
  \<open>max_processes\<close> the list of ranges is empty and \<open>Pool\<close> rejects the process count.
\<close>

definition load_pdf ::
  "('d, 'r) world \<Rightarrow> string \<Rightarrow> config option \<Rightarrow> 'd event list \<times> (py_error + 'd list)" where
  "load_pdf w path cfg =
     (case resolve_config w cfg of
        Inl e \<Rightarrow> ([], Inl e)
      | Inr config \<Rightarrow>
     (case path_exists w path of
        Inl e \<Rightarrow> ([], Inl e)
      | Inr present \<Rightarrow>
        if \<not> present then ([], Inl (FileNotFoundError (''PDF not found: '' @ path)))
        else
        (case pdf_loader w path of
           Inl e \<Rightarrow> ([LoadPdf path], Inl e)
         | Inr temp_docs \<Rightarrow>
             (let total_pages = int (length temp_docs) in
              if total_pages \<le> max_processes config then ([LoadPdf path], Inr temp_docs)
              else if max_processes config = 0
                then ([LoadPdf path], Inl (ZeroDivisionError ''integer division or modulo by zero''))
              else if max_processes config < 1
                then ([LoadPdf path], Inl (ValueError ''Number of processes must be at least 1''))
              else
                (let ranges = page_ranges total_pages (max_processes config);
                     log = LoadPdf path # map (\<lambda>r. LoadPdf path) ranges
                 in case starmap (load_pdf_pages w path) ranges of
                      Inl e \<Rightarrow> (log, Inl e)
                    | Inr results \<Rightarrow> (log, Inr (concat results)))))))"

text \<open>
  The single-threaded load the parallel one is compared with: \<open>load_pdf_pages\<close> without
  a page range.
\<close>

definition load_all_pages :: "('d, 'r) world \<Rightarrow> string \<Rightarrow> py_error + 'd list" where
  "load_all_pages w path = load_pdf_pages w path None None"

section \<open>Chunk splitter (\<open>split_documents\<close>)\<close>

definition split_documents ::
  "('d, 'r) world \<Rightarrow> 'd list \<Rightarrow> config option \<Rightarrow> py_error + 'd list" where
  "split_documents w documents cfg =
     (case resolve_config w cfg of
        Inl e \<Rightarrow> Inl e
      | Inr config \<Rightarrow> text_splitter w (chunk_size config) (chunk_overlap config) documents)"

section \<open>Clients and collection (\<open>src/core/rag.py\<close>)\<close>

definition create_embeddings :: "('d, 'r) world \<Rightarrow> config option \<Rightarrow> py_error + unit" where
  "create_embeddings w cfg =
     (case resolve_config w cfg of
        Inl e \<Rightarrow> Inl e
      | Inr config \<Rightarrow> (case azure_embeddings w of Some e \<Rightarrow> Inl e | None \<Rightarrow> Inr ()))"

definition create_qdrant_client :: "('d, 'r) world \<Rightarrow> py_error + unit" where
  "create_qdrant_client w = (case qdrant_client w of Some e \<Rightarrow> Inl e | None \<Rightarrow> Inr ())"

definition create_vector_store ::
  "('d, 'r) world \<Rightarrow> 'r \<Rightarrow> config option \<Rightarrow> py_error + unit" where
  "create_vector_store w r cfg =
     (case resolve_config w cfg of
        Inl e \<Rightarrow> Inl e
      | Inr config \<Rightarrow>
          (case qdrant_vector_store w r (collection_name config) of
             Some e \<Rightarrow> Inl e
           | None \<Rightarrow> Inr ()))"

text \<open>
  The exception that \<open>client.create_collection\<close> raises for an answer of the service.
  For a collection that exists the service answers 409 with the words "already
  exists", which the client puts into the text of its exception.
\<close>

definition conflict_error :: "string \<Rightarrow> py_error" where
  "conflict_error name =
     RemoteError (''Unexpected Response: 409 (Conflict) Wrong input: Collection '' @ name @
       '' already exists!'')"

fun raised :: "string \<Rightarrow> create_result \<Rightarrow> py_error option" where
  "raised name Ok = None"
| "raised name AlreadyExists = Some (conflict_error name)"
| "raised name (Error e) = Some e"

text \<open>
  \<open>create_or_verify_collection\<close>: the handler sees the exception only, and takes it for
  "the collection already exists" when its text, in lower case, has the words
  \<open>already exists\<close>.
\<close>

definition create_or_verify_collection ::
  "('d, 'r) world \<Rightarrow> 'r \<Rightarrow> config \<Rightarrow> int \<Rightarrow> (py_error + bool) \<times> 'r" where
  "create_or_verify_collection w r cfg embedding_dim =
     (case create_collection w r (collection_name cfg) embedding_dim of
        (answer, r1) \<Rightarrow>
          (case raised (collection_name cfg) answer of
             None \<Rightarrow> (Inr True, r1)
           | Some e \<Rightarrow>
               if py_in ''already exists'' (lower (str e)) then (Inr True, r1) else (Inl e, r1)))"

section \<open>Ingestion orchestrator (\<open>ingest_documents\<close>)\<close>

text \<open>
  The argument \<open>pdf\<close> is \<open>None\<close> when the caller passes no path; \<open>pdf_path or
  config.pdf_path\<close> also replaces an empty path. The first statement resolves the
  configuration, the second the path, then the environment is validated. The result is
  the log of the calls made and what \<open>ingest_documents\<close> returns or raises. The quotient
  \<open>elapsed/len(chunks)\<close> of the report raises \<open>ZeroDivisionError\<close> when there is no
  chunk.
\<close>

definition ingest_documents ::
  "('d, 'r) world \<Rightarrow> 'r \<Rightarrow> string option \<Rightarrow> config option
     \<Rightarrow> 'd event list \<times> (py_error + bool)" where
  "ingest_documents w r pdf cfg =
     (case resolve_config w cfg of
        Inl e \<Rightarrow> ([], Inl e)
      | Inr config \<Rightarrow>
     (let path = (case pdf of None \<Rightarrow> pdf_path config
                  | Some p \<Rightarrow> if p = [] then pdf_path config else p);
          missing_vars = validate_environment (w\<lparr>getenv := environment_after w cfg\<rparr>)
      in if missing_vars \<noteq> []
         then ([], Inl (ValueError (''Missing environment variables: '' @ join '', '' missing_vars)))
         else
      (case load_pdf w path (Some config) of
         (l1, Inl e) \<Rightarrow> (l1, Inl e)
       | (l1, Inr documents) \<Rightarrow>
      (case split_documents w documents (Some config) of
         Inl e \<Rightarrow> (l1, Inl e)
       | Inr chunks \<Rightarrow>
      (let l2 = l1 @ [CreateEmbeddings] in
       case create_embeddings w (Some config) of
         Inl e \<Rightarrow> (l2, Inl e)
       | Inr embeddings \<Rightarrow>
      (let l3 = l2 @ [CreateQdrantClient] in
       case create_qdrant_client w of
         Inl e \<Rightarrow> (l3, Inl e)
       | Inr client \<Rightarrow>
      (let l4 = l3 @ [EmbedQuery ''test''] in
       case embed_query w ''test'' of
         Inl e \<Rightarrow> (l4, Inl e)
       | Inr test_dim \<Rightarrow>
      (let l5 = l4 @ [CreateCollection (collection_name config) test_dim] in
       case create_or_verify_collection w r config test_dim of
         (Inl e, r1) \<Rightarrow> (l5, Inl e)
       | (Inr created, r1) \<Rightarrow>
      (let l6 = l5 @ [CreateVectorStore (collection_name config)] in
       case create_vector_store w r1 (Some config) of
         Inl e \<Rightarrow> (l6, Inl e)
       | Inr vectorstore \<Rightarrow>
      (case upload_in_batches (add_documents w) r1 chunks (batch_size config) of
         Inl e \<Rightarrow> (l6, Inl e)
       | Inr (success, st) \<Rightarrow>
           if length chunks = 0
           then (l6 @ events st, Inl (ZeroDivisionError ''float division by zero''))
           else (l6 @ events st, Inr success)))))))))))"

section \<open>A concrete setting for runs\<close>

text \<open>
  A small Qdrant: the names of the collections it holds, the aliases it holds, and a
  script of insert outcomes. It refuses to create a collection that exists, and also one
  whose name is taken by an alias; the second refusal is a failure of another kind,
  although its text has the words "already exists" too.
\<close>

record qdrant =
  collections :: "string list"
  aliases :: "string list"
  inserts :: "bool list"

definition alias_error :: "string \<Rightarrow> py_error" where
  "alias_error name =
     RemoteError (''Unexpected Response: 400 (Bad Request) Wrong input: '' @
       ''Can not create collection with name '' @ name @
       ''. Alias with the same name already exists'')"

definition sim_create_collection :: "qdrant \<Rightarrow> string \<Rightarrow> int \<Rightarrow> create_result \<times> qdrant" where
  "sim_create_collection r name vector_size =
     (if name \<in> set (collections r) then (AlreadyExists, r)
      else if name \<in> set (aliases r) then (Error (alias_error name), r)
      else (Ok, r\<lparr>collections := name # collections r\<rparr>))"

definition sim_add_documents :: "qdrant \<Rightarrow> string list \<Rightarrow> py_error option \<times> qdrant" where
  "sim_add_documents r batch =
     (fst (scripted (inserts r) batch), r\<lparr>inserts := snd (scripted (inserts r) batch)\<rparr>)"

definition empty_qdrant :: qdrant where
  "empty_qdrant = \<lparr>collections = [], aliases = [], inserts = []\<rparr>"

text \<open>
  A setting in which the variables are as given, no configuration is cached, the file
  \<open>guide.pdf\<close> holds the given pages, a path of more than 255 characters makes the
  existence check raise, the splitter drops empty pages and keeps the others whole, and
  every client can be built.
\<close>

definition sim_world ::
  "(string \<Rightarrow> string option) \<Rightarrow> string list \<Rightarrow> (string, qdrant) world" where
  "sim_world env pages =
     \<lparr>getenv = env,
      config_cache = None,
      path_exists = (\<lambda>p. if 255 < length p then Inl (OSError ''[Errno 36] File name too long'')
                          else Inr (p = ''guide.pdf'')),
      pdf_loader = (\<lambda>p. if p = ''guide.pdf'' then Inr pages
                         else Inl (ValueError ''not a valid file'')),
      text_splitter = (\<lambda>csize overlap docs. Inr (filter (\<lambda>d. d \<noteq> []) docs)),
      azure_embeddings = None,
      qdrant_client = None,
      embed_query = (\<lambda>text. Inr 1536),
      create_collection = sim_create_collection,
      qdrant_vector_store = (\<lambda>r name. None),
      add_documents = sim_add_documents\<rparr>"

text \<open>An environment with every required variable set and nothing else.\<close>

definition full_env :: "string \<Rightarrow> string option" where
  "full_env var = (if var \<in> set required then Some ''value'' else None)"

definition sim_config :: config where
  "sim_config =
     \<lparr>collection_name = ''atyantik-chatbot-openai'',
      chunk_size = 2048,
      chunk_overlap = 0,
      batch_size = 2,
      mmr_k = 3,
      embedding_batch_size = 1000,
      pdf_path = ''guide.pdf'',
      max_processes = 8,
      opik_workspace = ''knightkill'',
      opik_project = ''atyantik-chatbot''\<rparr>"
section \<open>Slices and batches\<close>

lemma py_slice_nat: "py_slice xs (int l) (int h) = take (h - l) (drop l xs)"
proof (cases "l < length xs")
  case True
  then show ?thesis
    by (cases "h \<le> length xs") (simp_all add: py_slice_def clamp_index_def min_def)
next
  case False
  then show ?thesis by (simp add: py_slice_def clamp_index_def min_def)
qed

lemma concat_slices_take:
  "concat (map (\<lambda>k. take b (drop (k * b) xs)) [0..<j]) = take (j * b) xs"
proof (induction j)
  case 0
  show ?case by simp
next
  case (Suc j)
  have "take (j * b) xs @ take b (drop (j * b) xs) = take (j * b + b) xs"
    by (simp add: take_add)
  with Suc show ?case by (simp add: add.commute)
qed

lemma slice_step:
  assumes "0 < b"
  shows "py_slice xs (int k * b) (int k * b + b) = take (nat b) (drop (k * nat b) xs)"
proof -
  obtain c where b: "b = int c" using assms zero_less_imp_eq_int by blast
  have "py_slice xs (int (k * c)) (int (k * c + c)) = take c (drop (k * c) xs)"
    unfolding py_slice_nat by simp
  then show ?thesis by (simp add: b)
qed

lemma batches_pos:
  assumes "0 < b"
  shows "batches xs b =
    Inr (map (\<lambda>k. take (nat b) (drop (k * nat b) xs)) [0..<batch_count (length xs) b])"
proof -
  have "py_range 0 (int (length xs)) b =
      Inr (map (\<lambda>k. int k * b) [0..<batch_count (length xs) b])"
    using assms by (simp add: py_range_def batch_count_def)
  then show ?thesis
    using assms by (simp add: batches_def slice_step comp_def del: of_nat_mult of_nat_add)
qed

lemma batches_neg:
  assumes "b < 0"
  shows "batches xs b = Inr []"
proof -
  define a c where "a = - int (length xs) - b - 1" and "c = - b"
  have c: "0 < c" and ac: "a < c" using assms by (simp_all add: a_def c_def)
  have "a div c \<le> 0"
  proof (rule ccontr)
    assume "\<not> a div c \<le> 0"
    then have "1 \<le> a div c" by simp
    then have "1 * c \<le> a div c * c" using c by (intro mult_right_mono) simp_all
    moreover have "a = a div c * c + a mod c" by simp
    moreover have "0 \<le> a mod c" using c by simp
    ultimately show False using ac by linarith
  qed
  then have "(- int (length xs) - b - 1) div (- b) \<le> 0" by (simp add: a_def c_def)
  then show ?thesis using assms by (simp add: batches_def py_range_def)
qed

lemma batches_zero: "batches xs 0 = Inl (ValueError ''range() arg 3 must not be zero'')"
  by (simp add: batches_def py_range_def)

lemma batch_count_covers:
  assumes "0 < b"
  shows "n \<le> batch_count n b * nat b"
proof -
  define m where "m = (int n + b - 1) div b"
  have "int n + b - 1 = m * b + (int n + b - 1) mod b" by (simp add: m_def)
  moreover have "(int n + b - 1) mod b < b" using assms by simp
  ultimately have le: "int n \<le> m * b" by linarith
  have "0 \<le> int n + b - 1" using assms by simp
  then have m0: "0 \<le> m" using assms by (simp add: m_def pos_imp_zdiv_nonneg_iff)
  have "int (nat m * nat b) = m * b" using m0 assms by simp
  with le have "int n \<le> int (nat m * nat b)" by simp
  then have "n \<le> nat m * nat b" by (simp only: of_nat_le_iff)
  then show ?thesis by (simp add: m_def batch_count_def)
qed

lemma batch_start_in_range:
  assumes "0 < b" and "k < batch_count n b"
  shows "k * nat b < n"
proof -
  define m where "m = (int n + b - 1) div b"
  have "int k < m" using assms(2) by (simp add: m_def batch_count_def)
  then have "int k + 1 \<le> m" by simp
  then have "(int k + 1) * b \<le> m * b" using assms(1) by simp
  moreover have "m * b \<le> int n + b - 1"
  proof -
    have "int n + b - 1 = m * b + (int n + b - 1) mod b" by (simp add: m_def)
    moreover have "0 \<le> (int n + b - 1) mod b" using assms(1) by simp
    ultimately show ?thesis by linarith
  qed
  ultimately have "(int k + 1) * b \<le> int n + b - 1" by linarith
  then have "int k * b < int n" by (simp add: algebra_simps)
  moreover have "int (k * nat b) = int k * b" using assms(1) by simp
  ultimately have "int (k * nat b) < int n" by (simp only:)
  then show ?thesis by (simp only: of_nat_less_iff)
qed

lemma batches_concat:
  assumes "0 < b"
  shows "\<exists>bs. batches xs b = Inr bs \<and> concat bs = xs \<and> [] \<notin> set bs"
proof -
  let ?bs = "map (\<lambda>k. take (nat b) (drop (k * nat b) xs)) [0..<batch_count (length xs) b]"
  have "concat ?bs = xs"
    using batch_count_covers [OF assms, of "length xs"] by (simp add: concat_slices_take)
  moreover have "[] \<notin> set ?bs"
  proof
    assume "[] \<in> set ?bs"
    then obtain k where k: "k < batch_count (length xs) b"
      and e: "take (nat b) (drop (k * nat b) xs) = []" by auto
    from batch_start_in_range [OF assms k] have "k * nat b < length xs" .
    with e assms show False by simp
  qed
  ultimately show ?thesis using batches_pos [OF assms, of xs] by blast
qed

section \<open>The upload loop\<close>

lemma upload_batch_attempt:
  "successful (upload_batch add st b) =
     successful st + (if fst (attempt add (store st) b) then int (length b) else 0)"
  "failed (upload_batch add st b) =
     failed st + (if fst (attempt add (store st) b) then 0 else int (length b))"
  "store (upload_batch add st b) = snd (attempt add (store st) b)"
  by (simp_all add: upload_batch_def attempt_def split: prod.splits option.splits)

lemma chunks_with_Nil: "chunks_with v [] vs = []"
  by (simp add: chunks_with_def)

lemma chunks_with_Cons:
  "chunks_with v (b # bs) (w # ws) =
     (if w = v then b @ chunks_with v bs ws else chunks_with v bs ws)"
  by (simp add: chunks_with_def)

lemma length_verdicts: "length (verdicts add r bs) = length bs"
  by (induction bs arbitrary: r) simp_all

lemma upload_loop_tally:
  "successful (upload_loop add st bs) =
     successful st + int (length (chunks_with True bs (verdicts add (store st) bs))) \<and>
   failed (upload_loop add st bs) =
     failed st + int (length (chunks_with False bs (verdicts add (store st) bs)))"
proof (induction bs arbitrary: st)
  case Nil
  show ?case by (simp add: chunks_with_Nil)
next
  case (Cons b bs)
  show ?case
    by (simp add: Cons.IH upload_batch_attempt chunks_with_Cons)
qed

lemma chunks_with_total:
  "length vs = length bs \<Longrightarrow>
   length (chunks_with True bs vs) + length (chunks_with False bs vs) = length (concat bs)"
proof (induction bs arbitrary: vs)
  case Nil
  then show ?case by (simp add: chunks_with_Nil)
next
  case (Cons b bs)
  then obtain w ws where vs: "vs = w # ws" by (cases vs) auto
  with Cons.prems have "length ws = length bs" by simp
  from Cons.IH [OF this] show ?case by (simp add: vs chunks_with_Cons)
qed

lemma chunks_with_empty_iff:
  "length vs = length bs \<Longrightarrow> [] \<notin> set bs \<Longrightarrow> chunks_with v bs vs = [] \<longleftrightarrow> v \<notin> set vs"
proof (induction bs arbitrary: vs)
  case Nil
  then show ?case by (simp add: chunks_with_Nil)
next
  case (Cons b bs)
  then obtain w ws where vs: "vs = w # ws" by (cases vs) auto
  with Cons.prems have "length ws = length bs" "[] \<notin> set bs" "b \<noteq> []" by auto
  with Cons.IH [of ws] show ?case by (auto simp: vs chunks_with_Cons)
qed

lemma upload_in_batches_unfold:
  "batches documents bsize = Inr bs \<Longrightarrow>
   upload_in_batches add r documents bsize =
     Inr (failed (upload_loop add \<lparr>successful = 0, failed = 0, events = [], store = r\<rparr> bs) = 0,
          upload_loop add \<lparr>successful = 0, failed = 0, events = [], store = r\<rparr> bs)"
  by (simp add: upload_in_batches_def Let_def)

text \<open>
  C9. For every chunk sequence, every \<open>batch_size \<ge> 1\<close> and every behaviour of the store,
  \<open>upload_in_batches\<close> returns, and at its end \<open>successful + failed\<close> is the number of
  chunks: the batches are a partition of the chunks, \<open>successful\<close> counts the chunks of
  the batches that succeeded (at once or on the retry) and \<open>failed\<close> the chunks of the
  others, so each chunk is tallied exactly once.
\<close>

theorem upload_in_batches_tally:
  assumes "1 \<le> bsize"
  shows "\<exists>bs ok st.
    batches documents bsize = Inr bs \<and> concat bs = documents \<and>
    upload_in_batches add r documents bsize = Inr (ok, st) \<and>
    successful st = int (length (chunks_with True bs (verdicts add r bs))) \<and>
    failed st = int (length (chunks_with False bs (verdicts add r bs))) \<and>
    successful st + failed st = int (length documents)"
proof -
  from assms have "0 < bsize" by simp
  from batches_concat [OF this, of documents]
  obtain bs where bs: "batches documents bsize = Inr bs" "concat bs = documents" by blast
  let ?init = "\<lparr>successful = 0, failed = 0, events = [], store = r\<rparr>"
  let ?st = "upload_loop add ?init bs"
  have run: "upload_in_batches add r documents bsize = Inr (failed ?st = 0, ?st)"
    by (rule upload_in_batches_unfold [OF bs(1)])
  have s: "successful ?st = int (length (chunks_with True bs (verdicts add r bs)))"
    and f: "failed ?st = int (length (chunks_with False bs (verdicts add r bs)))"
    using upload_loop_tally [of add ?init bs] by simp_all
  have "length (chunks_with True bs (verdicts add r bs))
      + length (chunks_with False bs (verdicts add r bs)) = length (concat bs)"
    by (rule chunks_with_total) (rule length_verdicts)
  with s f bs(2) have "successful ?st + failed ?st = int (length documents)" by simp
  with bs run s f show ?thesis by blast
qed

theorem upload_in_batches_tally_witness:
  "(1::int) \<le> 2 \<and>
   (\<exists>bs ok st.
      batches [1 :: nat, 2, 3] 2 = Inr bs \<and> concat bs = [1 :: nat, 2, 3] \<and>
      upload_in_batches scripted [False, False, True] [1 :: nat, 2, 3] 2 = Inr (ok, st) \<and>
      successful st = int (length (chunks_with True bs (verdicts scripted [False, False, True] bs))) \<and>
      failed st = int (length (chunks_with False bs (verdicts scripted [False, False, True] bs))) \<and>
      successful st + failed st = int (length [1 :: nat, 2, 3]))"
  using upload_in_batches_tally [of 2 "[1 :: nat, 2, 3]" scripted "[False, False, True]"]
  by simp


lemma upload_loop_append:
  "upload_loop add st (xs @ ys) = upload_loop add (upload_loop add st xs) ys"
  by (induction xs arbitrary: st) simp_all

lemma events_upload_batch:
  "\<exists>tail. events (upload_batch add st b) = events st @ AddDocuments b # tail"
  by (simp add: upload_batch_def split: prod.splits option.splits)

lemma events_upload_loop_mono:
  "set (events st) \<subseteq> set (events (upload_loop add st bs))"
proof (induction bs arbitrary: st)
  case Nil
  show ?case by simp
next
  case (Cons b bs)
  obtain tail where "events (upload_batch add st b) = events st @ AddDocuments b # tail"
    using events_upload_batch by blast
  then have "set (events st) \<subseteq> set (events (upload_batch add st b))" by auto
  with Cons.IH [of "upload_batch add st b"] show ?case by auto
qed

lemma every_batch_submitted:
  "b \<in> set bs \<Longrightarrow> AddDocuments b \<in> set (events (upload_loop add st bs))"
proof (induction bs arbitrary: st)
  case Nil
  then show ?case by simp
next
  case (Cons c bs)
  show ?case
  proof (cases "b = c")
    case True
    obtain tail where "events (upload_batch add st c) = events st @ AddDocuments c # tail"
      using events_upload_batch by blast
    then have "AddDocuments c \<in> set (events (upload_batch add st c))" by simp
    with events_upload_loop_mono [of "upload_batch add st c" add bs] True
    show ?thesis by auto
  next
    case False
    with Cons.prems have "b \<in> set bs" by simp
    from Cons.IH [OF this] show ?thesis by simp
  qed
qed

text \<open>
  C3, as the code has it. For every chunk sequence, every store and every \<open>batch_size\<close>
  other than 0, \<open>upload_in_batches\<close> returns, and it returns true exactly when no
  batch has the verdict "failed", that is when every batch succeeded at once or on its
  retry.
\<close>

theorem upload_in_batches_true_iff:
  assumes "bsize \<noteq> 0"
  shows "\<exists>bs st. batches documents bsize = Inr bs \<and>
    upload_in_batches add r documents bsize = Inr (False \<notin> set (verdicts add r bs), st)"
proof -
  obtain bs where bs: "batches documents bsize = Inr bs" "[] \<notin> set bs"
  proof (cases "0 < bsize")
    case True
    from batches_concat [OF True, of documents] that show ?thesis by blast
  next
    case False
    with assms have "bsize < 0" by simp
    from batches_neg [OF this, of documents] that show ?thesis by simp
  qed
  let ?init = "\<lparr>successful = 0, failed = 0, events = [], store = r\<rparr>"
  let ?fin = "upload_loop add ?init bs"
  have "failed ?fin = int (length (chunks_with False bs (verdicts add r bs)))"
    using upload_loop_tally [of add ?init bs] by simp
  moreover have "chunks_with False bs (verdicts add r bs) = [] \<longleftrightarrow>
      False \<notin> set (verdicts add r bs)"
    by (rule chunks_with_empty_iff) (simp_all add: length_verdicts bs(2))
  ultimately have "(failed ?fin = 0) = (False \<notin> set (verdicts add r bs))" by simp
  with upload_in_batches_unfold [OF bs(1), of add r] bs(1) show ?thesis by auto
qed

theorem upload_in_batches_true_iff_witness:
  "(2::int) \<noteq> 0 \<and>
   (\<exists>bs st. batches [1 :: nat, 2, 3] 2 = Inr bs \<and>
      upload_in_batches scripted [False, True, False, False] [1 :: nat, 2, 3] 2 =
        Inr (False \<notin> set (verdicts scripted [False, True, False, False] bs), st))"
  using upload_in_batches_true_iff [of 2 "[1 :: nat, 2, 3]" scripted "[False, True, False, False]"]
  by simp

text \<open>
  C3, as stated, fails at \<open>batch_size = 0\<close>: \<open>range\<close> raises \<open>ValueError\<close> before any
  batch is formed, so no batch has failed and yet nothing is returned.
\<close>

theorem upload_in_batches_zero_batch_size:
  "upload_in_batches scripted [] [1 :: nat] 0 =
     Inl (ValueError ''range() arg 3 must not be zero'')"
  by (simp add: upload_in_batches_def batches_def py_range_def)

text \<open>
  C2. When the loop reaches a batch in state \<open>st\<close>: if the first insert fails and the
  retry succeeds, the iteration adds the length of the batch to \<open>successful\<close> and
  leaves \<open>failed\<close> as it was; if both fail, it adds the length to \<open>failed\<close>, once, and
  leaves \<open>successful\<close> as it was. Whatever the outcome, the run goes on with the rest
  of the batches, returns, and has submitted every later batch.
\<close>

theorem retry_law:
  assumes "batches documents bsize = Inr (before @ batch # rest)"
    and "st = upload_loop add \<lparr>successful = 0, failed = 0, events = [], store = r\<rparr> before"
  shows
    "(\<forall>e r1 r2. add (store st) batch = (Some e, r1) \<and> add r1 batch = (None, r2) \<longrightarrow>
        successful (upload_batch add st batch) = successful st + int (length batch) \<and>
        failed (upload_batch add st batch) = failed st) \<and>
     (\<forall>e r1 e2 r2. add (store st) batch = (Some e, r1) \<and> add r1 batch = (Some e2, r2) \<longrightarrow>
        failed (upload_batch add st batch) = failed st + int (length batch) \<and>
        successful (upload_batch add st batch) = successful st) \<and>
     (\<exists>ok fin. upload_in_batches add r documents bsize = Inr (ok, fin) \<and>
        fin = upload_loop add (upload_batch add st batch) rest \<and>
        (\<forall>b \<in> set rest. AddDocuments b \<in> set (events fin)))"
proof (intro conjI allI impI)
  fix e r1 r2
  assume "add (store st) batch = (Some e, r1) \<and> add r1 batch = (None, r2)"
  then show "successful (upload_batch add st batch) = successful st + int (length batch)"
    and "failed (upload_batch add st batch) = failed st"
    by (simp_all add: upload_batch_def)
next
  fix e r1 e2 r2
  assume "add (store st) batch = (Some e, r1) \<and> add r1 batch = (Some e2, r2)"
  then show "failed (upload_batch add st batch) = failed st + int (length batch)"
    and "successful (upload_batch add st batch) = successful st"
    by (simp_all add: upload_batch_def)
next
  let ?fin = "upload_loop add (upload_batch add st batch) rest"
  have "upload_loop add \<lparr>successful = 0, failed = 0, events = [], store = r\<rparr>
      (before @ batch # rest) = ?fin"
    by (simp add: upload_loop_append assms(2))
  with upload_in_batches_unfold [OF assms(1), of add r]
  have "upload_in_batches add r documents bsize = Inr (failed ?fin = 0, ?fin)" by simp
  moreover have "\<forall>b \<in> set rest. AddDocuments b \<in> set (events ?fin)"
    using every_batch_submitted by blast
  ultimately show "\<exists>ok fin. upload_in_batches add r documents bsize = Inr (ok, fin) \<and>
      fin = ?fin \<and> (\<forall>b \<in> set rest. AddDocuments b \<in> set (events fin))"
    by blast
qed

theorem retry_law_witness:
  "batches [1 :: nat, 2, 3] 1 = Inr ([[1]] @ [2] # [[3]]) \<and>
   failed (upload_batch scripted
      (upload_loop scripted
        \<lparr>successful = 0, failed = 0, events = [], store = [True, False, False, True]\<rparr> [[1]])
      [2 :: nat]) =
     failed (upload_loop scripted
        \<lparr>successful = 0, failed = 0, events = [], store = [True, False, False, True]\<rparr>
        [[1 :: nat]]) + 1 \<and>
   successful (upload_batch scripted
      (upload_loop scripted
        \<lparr>successful = 0, failed = 0, events = [], store = [True, False, True]\<rparr> [[1]])
      [2 :: nat]) =
     successful (upload_loop scripted
        \<lparr>successful = 0, failed = 0, events = [], store = [True, False, True]\<rparr>
        [[1 :: nat]]) + 1 \<and>
   (\<exists>ok fin. upload_in_batches scripted [True, False, False, True] [1 :: nat, 2, 3] 1 =
        Inr (ok, fin) \<and> AddDocuments [3] \<in> set (events fin))"
proof -
  let ?init = "\<lparr>successful = 0, failed = 0, events = [] :: nat event list,
    store = [True, False, False, True]\<rparr>"
  let ?st = "upload_loop scripted ?init [[1 :: nat]]"
  let ?init' = "\<lparr>successful = 0, failed = 0, events = [] :: nat event list,
    store = [True, False, True]\<rparr>"
  let ?st' = "upload_loop scripted ?init' [[1 :: nat]]"
  have b: "batches [1 :: nat, 2, 3] 1 = Inr ([[1]] @ [2] # [[3]])" by code_simp
  have s1: "scripted (store ?st) [2 :: nat] = (Some (RemoteError ''insert failed''), [False, True])"
    by (simp add: upload_batch_def)
  have s2: "scripted [False, True] [2 :: nat] = (Some (RemoteError ''insert failed''), [True])"
    by simp
  have t1: "scripted (store ?st') [2 :: nat] = (Some (RemoteError ''insert failed''), [True])"
    by (simp add: upload_batch_def)
  have t2: "scripted [True] [2 :: nat] = (None, [])"
    by simp
  note law = retry_law [OF b refl, of scripted "[True, False, False, True]"]
  note law' = retry_law [OF b refl, of scripted "[True, False, True]"]
  from law s1 s2
  have "failed (upload_batch scripted ?st [2]) = failed ?st + int (length [2 :: nat])"
    by blast
  moreover from law' t1 t2
  have "successful (upload_batch scripted ?st' [2]) = successful ?st' + int (length [2 :: nat])"
    by blast
  moreover from law have "\<exists>ok fin.
      upload_in_batches scripted [True, False, False, True] [1 :: nat, 2, 3] 1 = Inr (ok, fin) \<and>
      AddDocuments [3] \<in> set (events fin)"
    by auto
  ultimately show ?thesis using b by simp
qed


lemma upload_batch_events:
  "(fst (add (store st) batch) = None \<longrightarrow>
      events (upload_batch add st batch) =
        events st @ [AddDocuments batch, GcCollect, Sleep inter_batch_pause]) \<and>
   (fst (add (store st) batch) \<noteq> None \<longrightarrow>
      events (upload_batch add st batch) =
        events st @ [AddDocuments batch, Sleep retry_backoff, AddDocuments batch]) \<and>
   inter_batch_pause = 1 / 10 \<and> retry_backoff = 1 / 2 \<and> inter_batch_pause < retry_backoff"
  by (auto simp: upload_batch_def inter_batch_pause_def retry_backoff_def
      split: prod.splits option.splits)

text \<open>
  C6 does not hold of the code. The pause of 0.1 s stands in the \<open>try\<close> body, after a
  first insert that succeeded; the handler waits 0.5 s before the retry and nothing after
  it. In both runs below the second batch is submitted right after the retry of the
  first, with no pause between them: in the first run the retry failed, in the second it
  succeeded. (The backoff of 0.5 s is longer than the pause of 0.1 s, as claimed.)
\<close>

theorem no_pause_after_retried_batch:
  "upload_in_batches scripted [False, False] [1 :: nat, 2] 1 =
     Inr (False,
       \<lparr>successful = 1, failed = 1,
        events = [AddDocuments [1], Sleep (1 / 2), AddDocuments [1],
                  AddDocuments [2], GcCollect, Sleep (1 / 10)],
        store = []\<rparr>) \<and>
   upload_in_batches scripted [False, True] [1 :: nat, 2] 1 =
     Inr (True,
       \<lparr>successful = 2, failed = 0,
        events = [AddDocuments [1], Sleep (1 / 2), AddDocuments [1],
                  AddDocuments [2], GcCollect, Sleep (1 / 10)],
        store = []\<rparr>) \<and>
   \<not> pause_before_each_insert True
       [AddDocuments [1 :: nat], Sleep (1 / 2), AddDocuments [1],
        AddDocuments [2], GcCollect, Sleep (1 / 10)] \<and>
   pause_before_each_insert True
       [AddDocuments [1 :: nat], GcCollect, Sleep (1 / 10),
        AddDocuments [2], GcCollect, Sleep (1 / 10)] \<and>
   inter_batch_pause < retry_backoff"
  by code_simp
section \<open>The document loader\<close>

lemma upto_as_upt: "[0..int n - 1] = map int [0..<n]"
  by (rule nth_equalityI) simp_all

lemma page_ranges_nat:
  "page_ranges P (int n) =
     map (\<lambda>k. (int k * (P div int n),
                if Suc k < n then (int k + 1) * (P div int n) else P)) [0..<n]"
proof -
  have "(int k < int n - 1) = (Suc k < n)" for k by auto
  then show ?thesis by (simp add: page_ranges_def upto_as_upt comp_def Let_def)
qed

lemma starmap_slices:
  assumes "pdf_loader w path = Inr docs"
  shows "starmap (load_pdf_pages w path) rs = Inr (map (\<lambda>(s, e). py_slice docs s e) rs)"
proof (induction rs)
  case Nil
  show ?case by simp
next
  case (Cons r rs)
  obtain s e where r: "r = (s, e)" by (cases r)
  have "load_pdf_pages w path (Some s) (Some e) = Inr (py_slice docs s e)"
    by (simp add: load_pdf_pages_def assms)
  then show ?case by (simp add: r Cons.IH)
qed

lemma slice_to_end: "py_slice xs (int l) (int (length xs)) = drop l xs"
  unfolding py_slice_nat by simp

lemma concat_page_slices:
  assumes "0 < n" and "0 \<le> q"
  shows "concat (map (\<lambda>(s, e). py_slice docs s e)
      (map (\<lambda>k. (int k * q, if Suc k < n then (int k + 1) * q else int (length docs))) [0..<n]))
    = docs"
proof -
  obtain m where n: "n = Suc m" using assms(1) by (cases n) auto
  obtain c where q: "q = int c" using assms(2) nonneg_int_cases by blast
  have inner: "py_slice docs (int k * q) ((int k + 1) * q) = take c (drop (k * c) docs)" for k
  proof -
    have "py_slice docs (int (k * c)) (int (k * c + c)) = take c (drop (k * c) docs)"
      unfolding py_slice_nat by simp
    then show ?thesis by (simp add: q algebra_simps)
  qed
  have last: "py_slice docs (int m * q) (int (length docs)) = drop (m * c) docs"
    using slice_to_end [of docs "m * c"] by (simp add: q)
  have "map (\<lambda>(s, e). py_slice docs s e)
      (map (\<lambda>k. (int k * q, if Suc k < n then (int k + 1) * q else int (length docs))) [0..<n])
    = map (\<lambda>k. take c (drop (k * c) docs)) [0..<m] @ [drop (m * c) docs]"
    by (simp add: n inner last)
  then show ?thesis by (simp add: concat_slices_take)
qed


text \<open>
  C1. For a file of \<open>P\<close> pages and \<open>N = max_processes\<close> with \<open>1 \<le> N < P\<close>, \<open>load_pdf\<close>
  forms \<open>N\<close> page ranges; range \<open>i\<close> is \<open>[i * (P div N), (i + 1) * (P div N))\<close>, but
  the last one ends at \<open>P\<close>; each is non-empty and inside \<open>[0, P)\<close>, the first starts at
  0, and each range starts where the one before it ends, so there is no overlap and no
  gap. Every worker returns the pages of its range. \<open>load_pdf\<close> makes one loader call
  itself and one in each of the \<open>N\<close> workers, and returns the concatenation of the
  workers' pages in the order of the ranges, which is the page sequence of a single load
  of the whole file.
\<close>

theorem load_pdf_partition:
  assumes "resolve_config w copt = Inr cfg"
    and "path_exists w path = Inr True" and "pdf_loader w path = Inr docs"
    and "P = int (length docs)" and "N = max_processes cfg"
    and "1 \<le> N" and "N < P"
    and "rs = page_ranges P N"
  shows "length rs = nat N \<and>
    (\<forall>i < nat N. rs ! i = (int i * (P div N), if int i < N - 1 then (int i + 1) * (P div N) else P)) \<and>
    (\<forall>i < nat N. 0 \<le> fst (rs ! i) \<and> fst (rs ! i) < snd (rs ! i) \<and> snd (rs ! i) \<le> P) \<and>
    fst (rs ! 0) = 0 \<and> snd (rs ! (nat N - 1)) = P \<and>
    (\<forall>i. Suc i < nat N \<longrightarrow> snd (rs ! i) = fst (rs ! Suc i)) \<and>
    starmap (load_pdf_pages w path) rs =
      Inr (map (\<lambda>(s, e). take (nat e - nat s) (drop (nat s) docs)) rs) \<and>
    load_pdf w path copt =
      (LoadPdf path # replicate (nat N) (LoadPdf path),
       Inr (concat (map (\<lambda>(s, e). take (nat e - nat s) (drop (nat s) docs)) rs))) \<and>
    concat (map (\<lambda>(s, e). take (nat e - nat s) (drop (nat s) docs)) rs) = docs \<and>
    load_all_pages w path = Inr docs"
proof -
  define n where "n = nat N"
  define q where "q = P div N"
  have N: "N = int n" and n0: "0 < n" using assms(6) by (simp_all add: n_def)
  have q1: "1 \<le> q"
    using assms(6,7) by (simp add: q_def pos_imp_zdiv_pos_iff int_one_le_iff_zero_less)
  have qN: "N * q \<le> P"
  proof -
    have "P = N * q + P mod N" by (simp add: q_def)
    moreover have "0 \<le> P mod N" using assms(6) by simp
    ultimately show ?thesis by linarith
  qed
  let ?f = "\<lambda>k. (int k * q, if Suc k < n then (int k + 1) * q else P)"
  let ?pages = "\<lambda>(s, e). take (nat e - nat s) (drop (nat s) docs)"
  have rs: "rs = map ?f [0..<n]"
    unfolding assms(8) N q_def by (rule page_ranges_nat)
  have len: "length rs = n" by (simp add: rs)
  have nth: "rs ! i = ?f i" if "i < n" for i using that by (simp add: rs)
  have inner_le: "(int i + 1) * q \<le> P" if "Suc i < n" for i
  proof -
    have "int i + 1 \<le> N" using that by (simp add: N)
    then have "(int i + 1) * q \<le> N * q" using q1 by (intro mult_right_mono) simp_all
    with qN show ?thesis by linarith
  qed
  have start_lt: "int i * q < P" if "i < n" for i
  proof -
    have "int i + 1 \<le> N" using that by (simp add: N)
    then have "(int i + 1) * q \<le> N * q" using q1 by (intro mult_right_mono) simp_all
    moreover have "(int i + 1) * q = int i * q + q" by (simp add: algebra_simps)
    ultimately show ?thesis using qN q1 by linarith
  qed
  have a: "\<forall>i < nat N. rs ! i =
      (int i * (P div N), if int i < N - 1 then (int i + 1) * (P div N) else P)"
  proof (intro allI impI)
    fix i assume "i < nat N"
    then have i: "i < n" by (simp add: n_def)
    have "(int i < N - 1) = (Suc i < n)" by (auto simp: N)
    with nth [OF i] show "rs ! i =
      (int i * (P div N), if int i < N - 1 then (int i + 1) * (P div N) else P)"
      by (simp add: q_def)
  qed
  have b: "\<forall>i < nat N. 0 \<le> fst (rs ! i) \<and> fst (rs ! i) < snd (rs ! i) \<and> snd (rs ! i) \<le> P"
  proof (intro allI impI)
    fix i assume "i < nat N"
    then have i: "i < n" by (simp add: n_def)
    have "0 \<le> int i * q" using q1 by simp
    moreover have "int i * q < (int i + 1) * q" using q1 by (simp add: algebra_simps)
    ultimately show "0 \<le> fst (rs ! i) \<and> fst (rs ! i) < snd (rs ! i) \<and> snd (rs ! i) \<le> P"
      using nth [OF i] start_lt [OF i] inner_le [of i] by simp
  qed
  have c: "fst (rs ! 0) = 0" using nth [OF n0] by simp
  have d: "snd (rs ! (nat N - 1)) = P"
  proof -
    have "n - 1 < n" and "\<not> Suc (n - 1) < n" using n0 by simp_all
    with nth [of "n - 1"] have "snd (rs ! (n - 1)) = P" by simp
    then show ?thesis by (simp only: n_def)
  qed
  have e: "\<forall>i. Suc i < nat N \<longrightarrow> snd (rs ! i) = fst (rs ! Suc i)"
  proof (intro allI impI)
    fix i assume "Suc i < nat N"
    then have s: "Suc i < n" and i: "i < n" by (simp_all add: n_def)
    from nth [OF s] nth [OF i] s show "snd (rs ! i) = fst (rs ! Suc i)" by simp
  qed
  have sl: "py_slice docs s e = take (nat e - nat s) (drop (nat s) docs)"
    if "0 \<le> s" "0 \<le> e" for s e
    using that py_slice_nat [of docs "nat s" "nat e"] by simp
  have same: "map (\<lambda>(s, e). py_slice docs s e) rs = map ?pages rs"
  proof (rule map_cong [OF refl])
    fix r assume "r \<in> set rs"
    then obtain i where i: "i < n" and r: "r = rs ! i" by (auto simp: in_set_conv_nth len)
    from b i have "0 \<le> fst r" "fst r < snd r" by (simp_all add: r n_def)
    then show "(case r of (s, e) \<Rightarrow> py_slice docs s e) = ?pages r"
      by (cases r) (simp add: sl)
  qed
  with starmap_slices [OF assms(3), of rs]
  have f: "starmap (load_pdf_pages w path) rs = Inr (map ?pages rs)" by simp
  have "concat (map (\<lambda>(s, e). py_slice docs s e) rs) = docs"
    unfolding rs assms(4) using q1 by (intro concat_page_slices [OF n0]) simp
  then have cc: "concat (map ?pages rs) = docs" by (simp only: same)
  have log: "map (\<lambda>r. LoadPdf path) rs = replicate n (LoadPdf path)"
    by (simp add: map_replicate_const len)
  have g: "load_pdf w path copt =
      (LoadPdf path # replicate (nat N) (LoadPdf path), Inr (concat (map ?pages rs)))"
    using assms(6,7) f log
    by (simp add: load_pdf_def Let_def assms(1,2,3) assms(4,5,8) [symmetric] n_def)
  have h: "load_all_pages w path = Inr docs"
    by (simp add: load_all_pages_def load_pdf_pages_def assms(3))
  from len a b c d e f g cc h show ?thesis by (simp add: n_def)
qed

theorem load_pdf_partition_witness:
  "page_ranges 5 2 = [(0, 2), (2, 5)] \<and>
   starmap (load_pdf_pages (sim_world full_env [''p0'', ''p1'', ''p2'', ''p3'', ''p4''])
       ''guide.pdf'') (page_ranges 5 2) = Inr [[''p0'', ''p1''], [''p2'', ''p3'', ''p4'']] \<and>
   load_pdf (sim_world full_env [''p0'', ''p1'', ''p2'', ''p3'', ''p4'']) ''guide.pdf''
       (Some (sim_config\<lparr>max_processes := 2\<rparr>)) =
     ([LoadPdf ''guide.pdf'', LoadPdf ''guide.pdf'', LoadPdf ''guide.pdf''],
      Inr [''p0'', ''p1'', ''p2'', ''p3'', ''p4''])"
proof -
  let ?pages = "[''p0'', ''p1'', ''p2'', ''p3'', ''p4'']"
  let ?w = "sim_world full_env ?pages"
  let ?cfg = "sim_config\<lparr>max_processes := 2\<rparr>"
  have rc: "resolve_config ?w (Some ?cfg) = Inr ?cfg" by (simp add: resolve_config_def)
  have ex: "path_exists ?w ''guide.pdf'' = Inr True" by (simp add: sim_world_def)
  have ld: "pdf_loader ?w ''guide.pdf'' = Inr ?pages" by (simp add: sim_world_def)
  have P: "(5::int) = int (length ?pages)" by simp
  have N: "(2::int) = max_processes ?cfg" by (simp add: sim_config_def)
  have pr: "page_ranges 5 2 = [(0, 2), (2, 5)]" by code_simp
  note th = load_pdf_partition [OF rc ex ld P N _ _ refl]
  have th': "starmap (load_pdf_pages ?w ''guide.pdf'') (page_ranges 5 2) =
      Inr (map (\<lambda>(s, e). take (nat e - nat s) (drop (nat s) ?pages)) (page_ranges 5 2))"
    "load_pdf ?w ''guide.pdf'' (Some ?cfg) =
      (LoadPdf ''guide.pdf'' # replicate (nat 2) (LoadPdf ''guide.pdf''),
       Inr (concat (map (\<lambda>(s, e). take (nat e - nat s) (drop (nat s) ?pages))
         (page_ranges 5 2))))"
    using th by simp_all
  show ?thesis using th' by (simp add: pr numeral_2_eq_2)
qed

text \<open>
  C8, as the code has it. \<open>load_pdf\<close> first resolves its configuration and then asks
  whether the path exists. Whenever the path is not reported present (the check answers
  no, or raises), \<open>load_pdf\<close> raises with an empty log: no page has been loaded. When
  a configuration is passed or can be built and the check answers no, the error is
  \<open>FileNotFoundError\<close>.
\<close>

theorem load_pdf_missing_file:
  "(path_exists w path \<noteq> Inr True \<longrightarrow>
      fst (load_pdf w path copt) = [] \<and> (\<exists>e. snd (load_pdf w path copt) = Inl e)) \<and>
   (path_exists w path = Inr False \<and> resolve_config w copt = Inr cfg \<longrightarrow>
      load_pdf w path copt = ([], Inl (FileNotFoundError (''PDF not found: '' @ path))))"
  by (auto simp: load_pdf_def split: sum.splits bool.splits)

theorem load_pdf_missing_file_witness:
  "load_pdf (sim_world full_env [''page'']) ''missing.pdf'' (Some sim_config) =
     ([], Inl (FileNotFoundError ''PDF not found: missing.pdf'')) \<and>
   load_pdf (sim_world full_env [''page'']) ''missing.pdf'' None =
     ([], Inl (FileNotFoundError ''PDF not found: missing.pdf''))"
proof -
  let ?w = "sim_world full_env [''page'']"
  have ex: "path_exists ?w ''missing.pdf'' = Inr False" by (simp add: sim_world_def)
  have rc: "resolve_config ?w (Some sim_config) = Inr sim_config"
    by (simp add: resolve_config_def)
  define c where "c =
     \<lparr>collection_name = ''atyantik-chatbot-openai'', chunk_size = 2048, chunk_overlap = 0,
      batch_size = 2, mmr_k = 3, embedding_batch_size = 1000,
      pdf_path = ''./Career Leveling Guide.pdf'', max_processes = 8,
      opik_workspace = ''knightkill'', opik_project = ''atyantik-chatbot''\<rparr>"
  have rn: "resolve_config ?w None = Inr c" unfolding c_def by code_simp
  from load_pdf_missing_file [of ?w "''missing.pdf''" "Some sim_config" sim_config] ex rc
  have "load_pdf ?w ''missing.pdf'' (Some sim_config) =
      ([], Inl (FileNotFoundError (''PDF not found: '' @ ''missing.pdf'')))" by blast
  moreover from load_pdf_missing_file [of ?w "''missing.pdf''" None c] ex rn
  have "load_pdf ?w ''missing.pdf'' None =
      ([], Inl (FileNotFoundError (''PDF not found: '' @ ''missing.pdf'')))" by blast
  ultimately show ?thesis by simp
qed

text \<open>
  C8, as stated, fails: for a path that does not exist, a call without a configuration
  in an environment whose \<open>CHUNK_SIZE\<close> is not a number raises the \<open>ValueError\<close> of
  \<open>int\<close>, and for a name that is too long the check itself raises \<open>OSError\<close>.
\<close>

theorem load_pdf_missing_file_other_error:
  "path_exists (sim_world (full_env(''CHUNK_SIZE'' \<mapsto> ''abc'')) [''page'']) ''missing.pdf'' =
     Inr False \<and>
   load_pdf (sim_world (full_env(''CHUNK_SIZE'' \<mapsto> ''abc'')) [''page'']) ''missing.pdf'' None =
     ([], Inl (ValueError (''invalid literal for int() with base 10: '' @ repr ''abc''))) \<and>
   load_pdf (sim_world full_env [''page'']) (replicate 300 CHR ''a'') (Some sim_config) =
     ([], Inl (OSError ''[Errno 36] File name too long''))"
  by code_simp

section \<open>Environment validation and collection provisioning\<close>

lemma py_in_sublist: "py_in needle hay = sublist needle hay"
  by (induction hay) (simp_all add: sublist_Cons_right)

lemma sublist_prepend:
  assumes "sublist u zs"
  shows "sublist u (ps @ zs)"
proof -
  from assms obtain a b where "zs = a @ u @ b" by (auto simp: sublist_def)
  then have "ps @ zs = (ps @ a) @ u @ b" by simp
  then show ?thesis by (simp only: sublist_appendI)
qed

lemma sublist_join: "u \<in> set xs \<Longrightarrow> sublist u (join sep xs)"
proof (induction sep xs rule: join.induct)
  case (1 sep)
  then show ?case by simp
next
  case (2 sep x)
  then show ?case by simp
next
  case (3 sep x y ys)
  show ?case
  proof (cases "u = x")
    case True
    then show ?thesis by simp
  next
    case False
    with "3.prems" have "u \<in> set (y # ys)" by simp
    from "3.IH" [OF this] have "sublist u (join sep (y # ys))" .
    then have "sublist u ((x @ sep) @ join sep (y # ys))" by (rule sublist_prepend)
    then show ?thesis by simp
  qed
qed

lemma setup_environment_required:
  "u \<in> set required \<Longrightarrow> setup_environment c env u = env u"
  by (auto simp: setup_environment_def required_def)

lemma environment_after_required:
  "u \<in> set required \<Longrightarrow> environment_after w copt u = getenv w u"
  by (simp add: environment_after_def setup_environment_required
      split: option.splits sum.splits)

lemma validate_environment_after:
  "validate_environment (w\<lparr>getenv := environment_after w copt\<rparr>) = validate_environment w"
  unfolding validate_environment_def
  by (rule filter_cong [OF refl]) (simp add: environment_after_required)

text \<open>
  C4, as the code has it. When a required variable is unset, \<open>ingest_documents\<close> raises
  with an empty log: no file has been read, no client built and no network call made.
  When a configuration is passed or can be built, the error is the \<open>ValueError\<close> whose
  message is the fixed prefix followed by the missing variables joined by commas; every
  required variable that is unset is in that list and occurs in the message.
\<close>

theorem ingest_documents_missing_environment:
  assumes "v \<in> set required" and "getenv w v = None"
  shows "fst (ingest_documents w r pdf copt) = [] \<and>
    (\<exists>e. snd (ingest_documents w r pdf copt) = Inl e) \<and>
    (\<forall>cfg. resolve_config w copt = Inr cfg \<longrightarrow>
      (\<exists>msg. ingest_documents w r pdf copt = ([], Inl (ValueError msg)) \<and>
        msg = ''Missing environment variables: '' @ join '', '' (validate_environment w) \<and>
        (\<forall>u \<in> set required. getenv w u = None \<longrightarrow>
           u \<in> set (validate_environment w) \<and> py_in u msg)))"
proof -
  let ?msg = "''Missing environment variables: '' @ join '', '' (validate_environment w)"
  from assms have "v \<in> set (validate_environment w)" by (simp add: validate_environment_def)
  then have ne: "validate_environment w \<noteq> []" by auto
  have run: "ingest_documents w r pdf copt = ([], Inl (ValueError ?msg))"
    if "resolve_config w copt = Inr cfg" for cfg
    using that ne by (simp add: ingest_documents_def Let_def validate_environment_after)
  have all: "u \<in> set (validate_environment w) \<and> py_in u ?msg"
    if "u \<in> set required" "getenv w u = None" for u
  proof -
    from that have m: "u \<in> set (validate_environment w)" by (simp add: validate_environment_def)
    from sublist_join [OF m] have "sublist u (join '', '' (validate_environment w))" .
    then have "sublist u ?msg" by (rule sublist_prepend)
    with m show ?thesis by (simp only: py_in_sublist)
  qed
  have early: "fst (ingest_documents w r pdf copt) = [] \<and>
      (\<exists>e. snd (ingest_documents w r pdf copt) = Inl e)"
  proof (cases "resolve_config w copt")
    case (Inl e)
    then show ?thesis by (simp add: ingest_documents_def)
  next
    case (Inr cfg)
    from run [OF this] show ?thesis by simp
  qed
  from early run all show ?thesis by blast
qed

theorem ingest_documents_missing_environment_witness:
  "ingest_documents
     (sim_world (full_env(''QDRANT_URL'' := None, ''AZURE_OPENAI_API_KEY'' := None)) [''page''])
     empty_qdrant None (Some sim_config) =
   ([], Inl (ValueError ''Missing environment variables: AZURE_OPENAI_API_KEY, QDRANT_URL''))"
proof -
  let ?w = "sim_world (full_env(''QDRANT_URL'' := None, ''AZURE_OPENAI_API_KEY'' := None))
    [''page'']"
  have a: "''QDRANT_URL'' \<in> set required" by (simp add: required_def)
  have b: "getenv ?w ''QDRANT_URL'' = None" by (simp add: sim_world_def)
  have c: "validate_environment ?w = [''AZURE_OPENAI_API_KEY'', ''QDRANT_URL'']"
    by (simp add: validate_environment_def required_def sim_world_def full_env_def)
  have d: "resolve_config ?w (Some sim_config) = Inr sim_config"
    by (simp add: resolve_config_def)
  from ingest_documents_missing_environment [OF a b, of empty_qdrant None "Some sim_config"] d
  have "\<exists>msg. ingest_documents ?w empty_qdrant None (Some sim_config) =
        ([], Inl (ValueError msg)) \<and>
      msg = ''Missing environment variables: '' @ join '', '' (validate_environment ?w)"
    by blast
  then show ?thesis by (simp add: c)
qed

text \<open>
  C4, as stated, fails when no configuration is passed and none can be built: with
  \<open>QDRANT_URL\<close> unset and \<open>CHUNK_SIZE\<close> not a number, the error is the \<open>ValueError\<close> of
  \<open>int\<close>, and its message names no missing variable.
\<close>

theorem ingest_documents_unparsable_tunable:
  "(full_env(''QDRANT_URL'' := None, ''CHUNK_SIZE'' \<mapsto> ''abc'')) ''QDRANT_URL'' = None \<and>
   ingest_documents
     (sim_world (full_env(''QDRANT_URL'' := None, ''CHUNK_SIZE'' \<mapsto> ''abc'')) [''page''])
     empty_qdrant None None =
   ([], Inl (ValueError (''invalid literal for int() with base 10: '' @ repr ''abc''))) \<and>
   \<not> py_in ''QDRANT_URL'' (''invalid literal for int() with base 10: '' @ repr ''abc'')"
  by code_simp

lemma conflict_error_text: "py_in ''already exists'' (lower (str (conflict_error name)))"
proof -
  have "sublist ''already exists'' (lower '' already exists!'')" by code_simp
  then have "sublist ''already exists''
      ((lower ''Unexpected Response: 409 (Conflict) Wrong input: Collection '' @ lower name) @
        lower '' already exists!'')"
    by (rule sublist_prepend)
  then show ?thesis by (simp add: py_in_sublist conflict_error_def lower_def)
qed

lemma create_or_verify_collection_store:
  "snd (create_or_verify_collection w r cfg d) =
     snd (create_collection w r (collection_name cfg) d)"
  by (simp add: create_or_verify_collection_def split: prod.splits option.splits)

lemma sim_create_collection_again:
  "fst (sim_create_collection s name d) \<in> {Ok, AlreadyExists} \<Longrightarrow>
   fst (sim_create_collection (snd (sim_create_collection s name d)) name d) = AlreadyExists"
  by (simp add: sim_create_collection_def split: if_splits)

text \<open>
  C5, as the code has it. \<open>create_or_verify_collection\<close> returns true when the service
  creates the collection and when it answers that the collection already exists. A
  creation that fails for another reason is raised again, unchanged, unless the text of
  its exception has the words "already exists" (in any letter case), in which case it
  is reported as success too. So with a service that answers the creation of a
  collection it holds by "already exists", a call whose creation is answered by
  "created" or "already exists" succeeds, and so does the call that follows it.
\<close>

theorem create_or_verify_collection_law:
  "(create_collection w r (collection_name cfg) d = (Ok, r1) \<longrightarrow>
      create_or_verify_collection w r cfg d = (Inr True, r1)) \<and>
   (create_collection w r (collection_name cfg) d = (AlreadyExists, r1) \<longrightarrow>
      create_or_verify_collection w r cfg d = (Inr True, r1)) \<and>
   (create_collection w r (collection_name cfg) d = (Error e, r1) \<longrightarrow>
      create_or_verify_collection w r cfg d =
        (if py_in ''already exists'' (lower (str e)) then Inr True else Inl e, r1)) \<and>
   ((\<forall>s. fst (create_collection w s (collection_name cfg) d) \<in> {Ok, AlreadyExists} \<longrightarrow>
         fst (create_collection w (snd (create_collection w s (collection_name cfg) d))
           (collection_name cfg) d) = AlreadyExists) \<and>
    fst (create_collection w r (collection_name cfg) d) \<in> {Ok, AlreadyExists} \<longrightarrow>
      fst (create_or_verify_collection w r cfg d) = Inr True \<and>
      fst (create_or_verify_collection w (snd (create_or_verify_collection w r cfg d)) cfg d) =
        Inr True)"
proof -
  let ?name = "collection_name cfg"
  have ok: "fst (create_or_verify_collection w s cfg d) = Inr True"
    if "fst (create_collection w s ?name d) \<in> {Ok, AlreadyExists}" for s
  proof (cases "create_collection w s ?name d")
    case (Pair answer s1)
    with that have "answer = Ok \<or> answer = AlreadyExists" by simp
    with Pair show ?thesis
      by (auto simp: create_or_verify_collection_def conflict_error_text)
  qed
  have one: "create_collection w r ?name d = (Ok, r1) \<longrightarrow>
      create_or_verify_collection w r cfg d = (Inr True, r1)"
    by (simp add: create_or_verify_collection_def)
  have two: "create_collection w r ?name d = (AlreadyExists, r1) \<longrightarrow>
      create_or_verify_collection w r cfg d = (Inr True, r1)"
    by (simp add: create_or_verify_collection_def conflict_error_text)
  have three: "create_collection w r ?name d = (Error e, r1) \<longrightarrow>
      create_or_verify_collection w r cfg d =
        (if py_in ''already exists'' (lower (str e)) then Inr True else Inl e, r1)"
    by (simp add: create_or_verify_collection_def)
  have four: "fst (create_or_verify_collection w r cfg d) = Inr True \<and>
      fst (create_or_verify_collection w (snd (create_or_verify_collection w r cfg d)) cfg d) =
        Inr True"
    if contract: "\<forall>s. fst (create_collection w s ?name d) \<in> {Ok, AlreadyExists} \<longrightarrow>
         fst (create_collection w (snd (create_collection w s ?name d)) ?name d) = AlreadyExists"
      and first: "fst (create_collection w r ?name d) \<in> {Ok, AlreadyExists}"
  proof -
    from contract first
    have "fst (create_collection w (snd (create_collection w r ?name d)) ?name d) = AlreadyExists"
      by blast
    then have "fst (create_collection w (snd (create_or_verify_collection w r cfg d)) ?name d)
        \<in> {Ok, AlreadyExists}"
      by (simp add: create_or_verify_collection_store)
    from ok [OF first] ok [OF this] show ?thesis by simp
  qed
  from one two three four show ?thesis by blast
qed

theorem create_or_verify_collection_law_witness:
  "create_or_verify_collection (sim_world full_env [''page'']) empty_qdrant sim_config 1536 =
     (Inr True, empty_qdrant\<lparr>collections := [''atyantik-chatbot-openai'']\<rparr>) \<and>
   create_or_verify_collection (sim_world full_env [''page''])
     (empty_qdrant\<lparr>collections := [''atyantik-chatbot-openai'']\<rparr>) sim_config 1536 =
     (Inr True, empty_qdrant\<lparr>collections := [''atyantik-chatbot-openai'']\<rparr>) \<and>
   fst (create_or_verify_collection (sim_world full_env [''page''])
     (snd (create_or_verify_collection (sim_world full_env [''page'']) empty_qdrant
       sim_config 1536)) sim_config 1536) = Inr True"
proof -
  let ?w = "sim_world full_env [''page'']"
  let ?name = "''atyantik-chatbot-openai''"
  let ?held = "empty_qdrant\<lparr>collections := [?name]\<rparr>"
  have n: "collection_name sim_config = ?name" by (simp add: sim_config_def)
  have cc: "create_collection ?w = sim_create_collection" by (simp add: sim_world_def)
  have c1: "create_collection ?w empty_qdrant (collection_name sim_config) 1536 = (Ok, ?held)"
    by (simp add: cc sim_create_collection_def n empty_qdrant_def)
  have c2: "create_collection ?w ?held (collection_name sim_config) 1536 = (AlreadyExists, ?held)"
    by (simp add: cc sim_create_collection_def n empty_qdrant_def)
  have contract: "\<forall>s. fst (create_collection ?w s (collection_name sim_config) 1536)
        \<in> {Ok, AlreadyExists} \<longrightarrow>
      fst (create_collection ?w (snd (create_collection ?w s (collection_name sim_config) 1536))
        (collection_name sim_config) 1536) = AlreadyExists"
    unfolding cc using sim_create_collection_again by blast
  have first: "fst (create_collection ?w empty_qdrant (collection_name sim_config) 1536)
      \<in> {Ok, AlreadyExists}"
    by (simp add: c1)
  note law1 = create_or_verify_collection_law
    [of ?w empty_qdrant sim_config 1536 ?held "RemoteError []"]
  note law2 = create_or_verify_collection_law
    [of ?w ?held sim_config 1536 ?held "RemoteError []"]
  from law1 c1 have r1: "create_or_verify_collection ?w empty_qdrant sim_config 1536 =
      (Inr True, ?held)" by blast
  from law2 c2 have r2: "create_or_verify_collection ?w ?held sim_config 1536 =
      (Inr True, ?held)" by blast
  from law1 contract first
  have r3: "fst (create_or_verify_collection ?w
      (snd (create_or_verify_collection ?w empty_qdrant sim_config 1536)) sim_config 1536) =
      Inr True" by blast
  from r1 r2 r3 show ?thesis by simp
qed

text \<open>
  C5, as stated, fails for a creation that is refused for another reason with a text that
  has the words "already exists": here an alias holds the name, no collection of that
  name exists before or after the call, and the call reports success.
\<close>

theorem create_or_verify_collection_alias:
  "sim_create_collection
     \<lparr>collections = [], aliases = [''atyantik-chatbot-openai''], inserts = []\<rparr>
     ''atyantik-chatbot-openai'' 1536 =
     (Error (alias_error ''atyantik-chatbot-openai''),
      \<lparr>collections = [], aliases = [''atyantik-chatbot-openai''], inserts = []\<rparr>) \<and>
   create_or_verify_collection (sim_world full_env [''page''])
     \<lparr>collections = [], aliases = [''atyantik-chatbot-openai''], inserts = []\<rparr>
     sim_config 1536 =
     (Inr True, \<lparr>collections = [], aliases = [''atyantik-chatbot-openai''], inserts = []\<rparr>)"
  by code_simp

section \<open>The orchestrator\<close>

lemma batches_Nil: "b \<noteq> 0 \<Longrightarrow> batches ([] :: 'a list) b = Inr []"
proof (cases "0 < b")
  case True
  from batches_concat [OF True, of "[] :: 'a list"] obtain bs
    where "batches ([] :: 'a list) b = Inr bs" "concat bs = []" "[] \<notin> set bs" by blast
  then show ?thesis by (cases bs) auto
next
  case False
  assume "b \<noteq> 0"
  with False have "b < 0" by simp
  then show ?thesis by (rule batches_neg)
qed

text \<open>
  C10, as the code has it. When the configuration is resolved, the environment is
  complete, the PDF loads, every client is built and the collection is provisioned, but
  the pages yield no chunk, then for a \<open>batch_size\<close> other than 0 \<open>upload_in_batches\<close>
  returns true without an insert, and \<open>ingest_documents\<close> raises \<open>ZeroDivisionError\<close>
  in its report instead of returning that boolean.
\<close>

theorem ingest_documents_zero_chunks:
  assumes "resolve_config w copt = Inr cfg"
    and "validate_environment w = []"
    and "path = (case pdf of None \<Rightarrow> pdf_path cfg | Some p \<Rightarrow> if p = [] then pdf_path cfg else p)"
    and "load_pdf w path (Some cfg) = (l1, Inr documents)"
    and "split_documents w documents (Some cfg) = Inr []"
    and "azure_embeddings w = None"
    and "qdrant_client w = None"
    and "embed_query w ''test'' = Inr test_dim"
    and "create_or_verify_collection w r cfg test_dim = (Inr created, r1)"
    and "qdrant_vector_store w r1 (collection_name cfg) = None"
    and "batch_size cfg \<noteq> 0"
  shows "upload_in_batches (add_documents w) r1 [] (batch_size cfg) =
      Inr (True, \<lparr>successful = 0, failed = 0, events = [], store = r1\<rparr>) \<and>
    ingest_documents w r pdf copt =
      (l1 @ [CreateEmbeddings, CreateQdrantClient, EmbedQuery ''test'',
             CreateCollection (collection_name cfg) test_dim,
             CreateVectorStore (collection_name cfg)],
       Inl (ZeroDivisionError ''float division by zero''))"
proof -
  have up: "upload_in_batches (add_documents w) r1 [] (batch_size cfg) =
      Inr (True, \<lparr>successful = 0, failed = 0, events = [], store = r1\<rparr>)"
    using upload_in_batches_unfold [OF batches_Nil [OF assms(11)], of "add_documents w" r1]
    by simp
  have rs: "resolve_config w (Some cfg) = Inr cfg" by (simp add: resolve_config_def)
  have "ingest_documents w r pdf copt =
      (l1 @ [CreateEmbeddings, CreateQdrantClient, EmbedQuery ''test'',
             CreateCollection (collection_name cfg) test_dim,
             CreateVectorStore (collection_name cfg)],
       Inl (ZeroDivisionError ''float division by zero''))"
    unfolding ingest_documents_def
    by (simp add: assms(1) Let_def validate_environment_after assms(2) assms(3) [symmetric]
        assms(4,5,8,9) up create_embeddings_def create_qdrant_client_def
        create_vector_store_def rs assms(6,7,10))
  with up show ?thesis by simp
qed

theorem ingest_documents_zero_chunks_witness:
  "upload_in_batches (add_documents (sim_world full_env ['''']))
       (empty_qdrant\<lparr>collections := [''atyantik-chatbot-openai'']\<rparr>)
       ([] :: string list) (batch_size sim_config) =
     Inr (True, \<lparr>successful = 0, failed = 0, events = [],
                 store = empty_qdrant\<lparr>collections := [''atyantik-chatbot-openai'']\<rparr>\<rparr>) \<and>
   ingest_documents (sim_world full_env ['''']) empty_qdrant None (Some sim_config) =
     ([LoadPdf ''guide.pdf'', CreateEmbeddings, CreateQdrantClient, EmbedQuery ''test'',
       CreateCollection ''atyantik-chatbot-openai'' 1536,
       CreateVectorStore ''atyantik-chatbot-openai''],
      Inl (ZeroDivisionError ''float division by zero''))"
proof -
  let ?w = "sim_world full_env ['''']"
  let ?name = "''atyantik-chatbot-openai''"
  let ?held = "empty_qdrant\<lparr>collections := [?name]\<rparr>"
  have h0: "resolve_config ?w (Some sim_config) = Inr sim_config"
    by (simp add: resolve_config_def)
  have h1: "validate_environment ?w = []"
    by (simp add: validate_environment_def sim_world_def full_env_def)
  have h2: "''guide.pdf'' = (case None of None \<Rightarrow> pdf_path sim_config
      | Some p \<Rightarrow> if p = [] then pdf_path sim_config else p)"
    by (simp add: sim_config_def)
  have h3: "load_pdf ?w ''guide.pdf'' (Some sim_config) = ([LoadPdf ''guide.pdf''], Inr [''''])"
    by (simp add: load_pdf_def resolve_config_def sim_world_def sim_config_def)
  have h4: "split_documents ?w [''''] (Some sim_config) = Inr []"
    by (simp add: split_documents_def resolve_config_def sim_world_def)
  have h5: "azure_embeddings ?w = None" and h6: "qdrant_client ?w = None"
    and h7: "embed_query ?w ''test'' = Inr 1536"
    by (simp_all add: sim_world_def)
  have h8: "create_or_verify_collection ?w empty_qdrant sim_config 1536 = (Inr True, ?held)"
    by (simp add: create_or_verify_collection_def sim_world_def sim_create_collection_def
        sim_config_def empty_qdrant_def)
  have h9: "qdrant_vector_store ?w ?held (collection_name sim_config) = None"
    by (simp add: sim_world_def)
  have h10: "batch_size sim_config \<noteq> 0" by (simp add: sim_config_def)
  have n: "collection_name sim_config = ?name" by (simp add: sim_config_def)
  from ingest_documents_zero_chunks [OF h0 h1 h2 h3 h4 h5 h6 h7 h8 h9 h10]
  show ?thesis by (simp add: n)
qed

text \<open>
  C10, as stated, fails for \<open>batch_size = 0\<close>: with no chunk \<open>range\<close> still raises
  \<open>ValueError\<close>, so \<open>upload_in_batches\<close> returns nothing and \<open>ingest_documents\<close> raises
  that error, not a division by zero.
\<close>

theorem ingest_documents_zero_chunks_zero_batch_size:
  "upload_in_batches (add_documents (sim_world full_env ['''']))
       (empty_qdrant\<lparr>collections := [''atyantik-chatbot-openai'']\<rparr>) ([] :: string list) 0 =
     Inl (ValueError ''range() arg 3 must not be zero'') \<and>
   ingest_documents (sim_world full_env ['''']) empty_qdrant None
       (Some (sim_config\<lparr>batch_size := 0\<rparr>)) =
     ([LoadPdf ''guide.pdf'', CreateEmbeddings, CreateQdrantClient, EmbedQuery ''test'',
       CreateCollection ''atyantik-chatbot-openai'' 1536,
       CreateVectorStore ''atyantik-chatbot-openai''],
      Inl (ValueError ''range() arg 3 must not be zero''))"
  by code_simp

end
